theory Spec2Isabelle
  imports Complex_Main
begin

section \<open>Values the two stores hand to the request handlers\<close>

text \<open>
  The rows that \<^verbatim>\<open>index\<close> reads are dictionaries with the keys
  \<^verbatim>\<open>entry_date\<close>, \<^verbatim>\<open>weight\<close>, \<^verbatim>\<open>calories\<close> and \<^verbatim>\<open>steps\<close>; the annotation loop adds
  the key \<^verbatim>\<open>status\<close>. A numeric column holds \<^verbatim>\<open>None\<close>, a number, or (in the local
  SQLite store, whose columns only have a type affinity) a text that is not a number.
  The date column holds a \<^verbatim>\<open>datetime.date\<close> (MySQL \<^verbatim>\<open>DATE\<close>) or the text that was
  inserted (SQLite \<^verbatim>\<open>TEXT\<close>).
\<close>

datatype py_error = TypeError | ValueError

datatype 'n cell = Null | Num 'n | Text string

datatype date_val =
    DateObj nat nat nat
  | DatetimeObj nat nat nat nat nat nat
  | DateText string

record 'w entry =
  entry_date :: date_val
  weight :: "'w cell"
  calories :: "int cell"
  steps :: "int cell"
  status :: "string option"

text \<open>
  The builtin \<^verbatim>\<open>float\<close> is not part of the program. It is a parameter: what it returns
  on a number (it never raises there) and what it returns on a text (\<open>None\<close> when it raises
  \<^verbatim>\<open>ValueError\<close>).
\<close>

record ('w, 'f) py_float =
  float_num :: "'w \<Rightarrow> 'f"
  float_text :: "string \<Rightarrow> 'f option"

record 'f chart =
  chart_labels :: "string list"
  chart_weights :: "'f option list"
  chart_calories :: "int cell list"
  chart_steps :: "int cell list"

record ('w, 'f) view_model =
  vm_entries :: "'w entry list"
  vm_calorie_goal :: "int option"
  vm_over_goal_flags :: "string \<rightharpoonup> bool"
  vm_chart :: "'f chart"

section \<open>Date labels\<close>

text \<open>
  \<^verbatim>\<open>d.strftime("%Y-%m-%d")\<close> of the standard library, as CPython gives it on the C
  library of a Linux host: the year as a decimal number with no padding, so that the year
  999 prints as \<^verbatim>\<open>999\<close> and the year 42 as \<^verbatim>\<open>42\<close>; the month and the day padded with
  zeros to two digits. A \<^verbatim>\<open>date\<close> has a year from 1 to 9999, a month from 1 to 12 and a
  day from 1 to 31. From the year 1000 on the year has its four digits on every platform.
\<close>

definition digit_char :: "nat \<Rightarrow> char" where
  "digit_char n = ''0123456789'' ! (n mod 10)"

fun str_nat :: "nat \<Rightarrow> string" where
  "str_nat n = (if n < 10 then [digit_char n] else str_nat (n div 10) @ [digit_char n])"

declare str_nat.simps [simp del]

definition zfill :: "nat \<Rightarrow> string \<Rightarrow> string" where
  "zfill w s = replicate (w - length s) (CHR ''0'') @ s"

definition strftime_ymd :: "nat \<Rightarrow> nat \<Rightarrow> nat \<Rightarrow> string" where
  "strftime_ymd y m d =
     str_nat y @ ''-'' @ zfill 2 (str_nat m) @ ''-'' @ zfill 2 (str_nat d)"

text \<open>
  Lines 158-162 and 171-172:
  \<^verbatim>\<open>label = d.strftime("%Y-%m-%d") if isinstance(d, (datetime, date)) else str(d)\<close>.
\<close>

fun date_label :: "date_val \<Rightarrow> string" where
  "date_label (DateObj y m d) = strftime_ymd y m d"
| "date_label (DatetimeObj y m d hh mm ss) = strftime_ymd y m d"
| "date_label (DateText s) = s"

definition entry_label :: "('w, 'x) entry_scheme \<Rightarrow> string" where
  "entry_label e = date_label (entry_date e)"

section \<open>The annotation loop (lines 136-147)\<close>

text \<open>\<^verbatim>\<open>calories > calorie_goal\<close>: only a number compares with the integer goal.\<close>

fun py_gt :: "int cell \<Rightarrow> int \<Rightarrow> py_error + bool" where
  "py_gt (Num c) g = Inr (c > g)"
| "py_gt Null g = Inl TypeError"
| "py_gt (Text s) g = Inl TypeError"

definition entry_status :: "int \<Rightarrow> int cell \<Rightarrow> py_error + string" where
  "entry_status g c =
     (if c = Null then Inr ''N/A''
      else case py_gt c g of
        Inl err \<Rightarrow> Inl err
      | Inr over \<Rightarrow> Inr (if over then ''Over Goal'' else ''Within Goal''))"

fun annotate_goal :: "int \<Rightarrow> 'w entry list \<Rightarrow> py_error + 'w entry list" where
  "annotate_goal g [] = Inr []"
| "annotate_goal g (e # es) =
     (case entry_status g (calories e) of
        Inl err \<Rightarrow> Inl err
      | Inr s \<Rightarrow>
          (case annotate_goal g es of
             Inl err \<Rightarrow> Inl err
           | Inr es' \<Rightarrow> Inr (e\<lparr>status := Some s\<rparr> # es')))"

definition annotate :: "'w entry list \<Rightarrow> int option \<Rightarrow> py_error + 'w entry list" where
  "annotate entries calorie_goal =
     (case calorie_goal of
        Some g \<Rightarrow> annotate_goal g entries
      | None \<Rightarrow> Inr (map (\<lambda>e. e\<lparr>status := Some ''N/A''\<rparr>) entries))"

section \<open>The chart loop (lines 151-167)\<close>

text \<open>\<^verbatim>\<open>float(e["weight"]) if e["weight"] is not None else None\<close>\<close>

definition weight_point :: "('w, 'f) py_float \<Rightarrow> 'w cell \<Rightarrow> py_error + 'f option" where
  "weight_point fl w =
     (case w of
        Null \<Rightarrow> Inr None
      | Num x \<Rightarrow> Inr (Some (float_num fl x))
      | Text s \<Rightarrow> (case float_text fl s of None \<Rightarrow> Inl ValueError | Some v \<Rightarrow> Inr (Some v)))"

text \<open>\<^verbatim>\<open>x or 0\<close>: the value itself when it is truthy, the integer 0 otherwise.\<close>

definition or_zero :: "int cell \<Rightarrow> int cell" where
  "or_zero c =
     (case c of
        Null \<Rightarrow> Num 0
      | Num n \<Rightarrow> (if n = 0 then Num 0 else Num n)
      | Text s \<Rightarrow> (if s = [] then Num 0 else Text s))"

definition empty_chart :: "'f chart" where
  "empty_chart = \<lparr>chart_labels = [], chart_weights = [], chart_calories = [], chart_steps = []\<rparr>"

fun chart_loop :: "('w, 'f) py_float \<Rightarrow> 'w entry list \<Rightarrow> 'f chart \<Rightarrow> py_error + 'f chart" where
  "chart_loop fl [] acc = Inr acc"
| "chart_loop fl (e # es) acc =
     (case weight_point fl (weight e) of
        Inl err \<Rightarrow> Inl err
      | Inr w \<Rightarrow>
          chart_loop fl es
            \<lparr>chart_labels = chart_labels acc @ [entry_label e],
             chart_weights = chart_weights acc @ [w],
             chart_calories = chart_calories acc @ [or_zero (calories e)],
             chart_steps = chart_steps acc @ [or_zero (steps e)]\<rparr>)"

definition build_chart_series :: "('w, 'f) py_float \<Rightarrow> 'w entry list \<Rightarrow> py_error + 'f chart" where
  "build_chart_series fl entries = chart_loop fl (rev entries) empty_chart"

section \<open>The flag loop (lines 150 and 169-174)\<close>

definition is_over :: "int \<Rightarrow> int cell \<Rightarrow> py_error + bool" where
  "is_over g c = (if c \<noteq> Null then py_gt c g else Inr False)"

fun flags_loop :: "int \<Rightarrow> 'w entry list \<Rightarrow> (string \<rightharpoonup> bool) \<Rightarrow> py_error + (string \<rightharpoonup> bool)" where
  "flags_loop g [] flags = Inr flags"
| "flags_loop g (e # es) flags =
     (case is_over g (calories e) of
        Inl err \<Rightarrow> Inl err
      | Inr over \<Rightarrow>
          flags_loop g es
            (flags(entry_label e \<mapsto>
               ((case flags (entry_label e) of None \<Rightarrow> False | Some b \<Rightarrow> b) \<or> over))))"

definition build_over_goal_flags ::
  "'w entry list \<Rightarrow> int option \<Rightarrow> py_error + (string \<rightharpoonup> bool)" where
  "build_over_goal_flags entries calorie_goal =
     (case calorie_goal of
        None \<Rightarrow> Inr Map.empty
      | Some g \<Rightarrow> flags_loop g entries Map.empty)"

section \<open>The body of \<^verbatim>\<open>index\<close> after the rows are fetched (lines 136-185)\<close>

definition index_core ::
  "('w, 'f) py_float \<Rightarrow> 'w entry list \<Rightarrow> int option \<Rightarrow> py_error + ('w, 'f) view_model" where
  "index_core fl entries calorie_goal =
     (case annotate entries calorie_goal of
        Inl err \<Rightarrow> Inl err
      | Inr entries' \<Rightarrow>
          (case build_chart_series fl entries' of
             Inl err \<Rightarrow> Inl err
           | Inr ch \<Rightarrow>
               (case build_over_goal_flags entries' calorie_goal of
                  Inl err \<Rightarrow> Inl err
                | Inr flags \<Rightarrow>
                    Inr \<lparr>vm_entries = entries', vm_calorie_goal = calorie_goal,
                         vm_over_goal_flags = flags, vm_chart = ch\<rparr>)))"

section \<open>The form handlers (lines 16-35 and 188-263)\<close>

text \<open>
  The environment a handler runs in: the flag \<^verbatim>\<open>USE_SQLITE\<close>, the four connection
  variables, and whether the driver's \<^verbatim>\<open>connect\<close> raises (with the text of its
  exception). Once connected, the statements are taken to run.
\<close>

record config =
  USE_SQLITE :: bool
  DB_HOST :: "string option"
  DB_USER :: "string option"
  DB_PASSWORD :: "string option"
  DB_NAME :: "string option"
  driver_error :: "string option"

text \<open>The rows as the handlers insert them: the parameters of the two \<^verbatim>\<open>INSERT\<close>s.\<close>

type_synonym entry_row = "string \<times> string option \<times> string option \<times> string option"

record store =
  fitness_entries :: "entry_row list"
  settings :: "(string \<times> string) list"

datatype response = Redirect string

record outcome =
  out_store :: store
  flashed :: "(string \<times> string) list"
  out_response :: response

definition truthy_str :: "string option \<Rightarrow> bool" where
  "truthy_str v = (case v of None \<Rightarrow> False | Some s \<Rightarrow> s \<noteq> [])"

text \<open>\<^verbatim>\<open>request.form.get(k) or None\<close>\<close>

definition or_none :: "string option \<Rightarrow> string option" where
  "or_none v = (if truthy_str v then v else None)"

fun join :: "string \<Rightarrow> string list \<Rightarrow> string" where
  "join sep [] = []"
| "join sep [x] = x"
| "join sep (x # y # ys) = x @ sep @ join sep (y # ys)"

definition missing_config :: "config \<Rightarrow> string list" where
  "missing_config cfg =
     map fst (filter (\<lambda>(k, v). \<not> truthy_str v)
       [(''host'', DB_HOST cfg), (''user'', DB_USER cfg),
        (''password'', DB_PASSWORD cfg), (''database'', DB_NAME cfg)])"

definition driver_connect :: "config \<Rightarrow> string + unit" where
  "driver_connect cfg = (case driver_error cfg of Some msg \<Rightarrow> Inl msg | None \<Rightarrow> Inr ())"

definition get_db_connection :: "config \<Rightarrow> string + unit" where
  "get_db_connection cfg =
     (if USE_SQLITE cfg then driver_connect cfg
      else if missing_config cfg \<noteq> [] then
        Inl (''Missing DB config values: '' @ join '', '' (missing_config cfg) @
             ''. Check environment variables DB_HOST, DB_USER, DB_PASSWORD, DB_NAME.'')
      else driver_connect cfg)"

definition add_entry :: "config \<Rightarrow> (string \<rightharpoonup> string) \<Rightarrow> store \<Rightarrow> outcome" where
  "add_entry cfg form st =
     (let entry_date = form ''date'';
          weight = or_none (form ''weight'');
          calories = or_none (form ''calories'');
          steps = or_none (form ''steps'');
          required = \<lparr>out_store = st, flashed = [(''Date is required.'', ''error'')],
                      out_response = Redirect ''index''\<rparr>
      in case entry_date of
           None \<Rightarrow> required
         | Some d \<Rightarrow>
             if d = [] then required
             else case get_db_connection cfg of
                    Inl e \<Rightarrow>
                      \<lparr>out_store = st, flashed = [(''Error adding entry: '' @ e, ''error'')],
                       out_response = Redirect ''index''\<rparr>
                  | Inr conn \<Rightarrow>
                      \<lparr>out_store =
                         st\<lparr>fitness_entries := fitness_entries st @ [(d, weight, calories, steps)]\<rparr>,
                       flashed = [(''Entry added.'', ''success'')],
                       out_response = Redirect ''index''\<rparr>)"

definition set_goal :: "config \<Rightarrow> (string \<rightharpoonup> string) \<Rightarrow> store \<Rightarrow> outcome" where
  "set_goal cfg form st =
     (let empty_goal = \<lparr>out_store = st, flashed = [(''Calorie goal cannot be empty.'', ''error'')],
                        out_response = Redirect ''index''\<rparr>
      in case form ''calorie_goal'' of
           None \<Rightarrow> empty_goal
         | Some goal \<Rightarrow>
             if goal = [] then empty_goal
             else case get_db_connection cfg of
                    Inl e \<Rightarrow>
                      \<lparr>out_store = st, flashed = [(''Error updating goal: '' @ e, ''error'')],
                       out_response = Redirect ''index''\<rparr>
                  | Inr conn \<Rightarrow>
                      \<lparr>out_store =
                         st\<lparr>settings :=
                              filter (\<lambda>(name, v). name \<noteq> ''calorie_goal'') (settings st)
                              @ [(''calorie_goal'', goal)]\<rparr>,
                       flashed = [(''Calorie goal updated.'', ''success'')],
                       out_response = Redirect ''index''\<rparr>)"

section \<open>The input domain and the examples\<close>

text \<open>A numeric field of the documented domain: absent, or a number.\<close>

definition numeric :: "'n cell \<Rightarrow> bool" where
  "numeric c = (case c of Text s \<Rightarrow> False | _ \<Rightarrow> True)"

definition valid_entry :: "'w entry \<Rightarrow> bool" where
  "valid_entry e = (numeric (weight e) \<and> numeric (calories e) \<and> numeric (steps e))"

text \<open>The form of a zero-padded calendar date, four digits, two and two, with hyphens.\<close>

definition is_digit :: "char \<Rightarrow> bool" where
  "is_digit c = (c \<in> set ''0123456789'')"

definition iso_ymd :: "string \<Rightarrow> bool" where
  "iso_ymd s =
     (length s = 10 \<and> list_all is_digit (take 4 s) \<and> s ! 4 = CHR ''-'' \<and>
      list_all is_digit (take 2 (drop 5 s)) \<and> s ! 7 = CHR ''-'' \<and>
      list_all is_digit (drop 8 s))"

text \<open>
  For the examples: rows of the local store, whose weights are floats already, so that
  \<^verbatim>\<open>float\<close> returns its argument; no text is taken to parse as a float.
\<close>

definition example_float :: "(real, real) py_float" where
  "example_float = \<lparr>float_num = (\<lambda>x. x), float_text = (\<lambda>s. None)\<rparr>"

definition row :: "date_val \<Rightarrow> 'w cell \<Rightarrow> int cell \<Rightarrow> int cell \<Rightarrow> 'w entry" where
  "row d w c s = \<lparr>entry_date = d, weight = w, calories = c, steps = s, status = None\<rparr>"

definition spec_example :: "real entry list" where
  "spec_example =
     [row (DateObj 2024 1 3) Null (Num 2200) Null,
      row (DateObj 2024 1 2) Null (Num 1800) Null,
      row (DateObj 2024 1 1) Null Null Null]"

definition duplicate_example :: "real entry list" where
  "duplicate_example =
     [row (DateObj 2024 2 1) (Num 70.5) (Num 2500) (Num 8000),
      row (DateObj 2024 2 1) Null (Num 1000) Null]"

definition text_date_example :: "real entry list" where
  "text_date_example = [row (DateText ''3/1/2024'') Null (Num 1800) Null]"

definition zero_example :: "real entry list" where
  "zero_example = [row (DateObj 2024 3 1) (Num 70) (Num 0) (Num 0)]"

text \<open>A local configuration and a store with one entry and a goal, for the handlers.\<close>

definition local_config :: config where
  "local_config =
     \<lparr>USE_SQLITE = True, DB_HOST = None, DB_USER = None, DB_PASSWORD = None, DB_NAME = None,
      driver_error = None\<rparr>"

definition example_store :: store where
  "example_store =
     \<lparr>fitness_entries = [(''2024-01-01'', Some ''70.5'', Some ''1800'', None)],
      settings = [(''calorie_goal'', ''2000'')]\<rparr>"

section \<open>Facts about the annotation loop\<close>

lemma numeric_simps [simp]: "numeric Null" "numeric (Num n)" "\<not> numeric (Text s)"
  by (simp_all add: numeric_def)

lemma annotate_goal_length: "annotate_goal g es = Inr es' \<Longrightarrow> length es' = length es"
  by (induction es arbitrary: es') (auto split: sum.splits)

lemma annotate_goal_nth:
  "annotate_goal g es = Inr es' \<Longrightarrow> i < length es \<Longrightarrow>
     \<exists>s. entry_status g (calories (es ! i)) = Inr s \<and> es' ! i = (es ! i)\<lparr>status := Some s\<rparr>"
proof (induction es arbitrary: es' i)
  case Nil
  then show ?case by simp
next
  case (Cons e es)
  then show ?case
    by (cases i) (auto split: sum.splits)
qed

lemma entry_status_numeric:
  "numeric c \<Longrightarrow> \<exists>s. entry_status g c = Inr s"
  by (cases c) (simp_all add: entry_status_def)

lemma annotate_goal_total:
  "list_all (\<lambda>e. numeric (calories e)) es \<Longrightarrow> \<exists>es'. annotate_goal g es = Inr es'"
proof (induction es)
  case Nil
  then show ?case by simp
next
  case (Cons e es)
  then obtain s es' where "entry_status g (calories e) = Inr s" "annotate_goal g es = Inr es'"
    using entry_status_numeric [of "calories e" g] by auto
  then show ?case by simp
qed

lemma annotate_goal_idem:
  "annotate_goal g es = Inr es' \<Longrightarrow> annotate_goal g es' = Inr es'"
  by (induction es arbitrary: es') (auto split: sum.splits)

lemma annotate_nth:
  "annotate es goal = Inr es' \<Longrightarrow> i < length es \<Longrightarrow>
     \<exists>s. (case goal of None \<Rightarrow> Inr ''N/A'' | Some g \<Rightarrow> entry_status g (calories (es ! i))) = Inr s
        \<and> es' ! i = (es ! i)\<lparr>status := Some s\<rparr>"
  by (cases goal) (auto simp: annotate_def dest: annotate_goal_nth)

lemma annotate_length: "annotate es goal = Inr es' \<Longrightarrow> length es' = length es"
  by (cases goal) (auto simp: annotate_def dest: annotate_goal_length)

lemma annotate_total:
  "list_all (\<lambda>e. numeric (calories e)) es \<Longrightarrow> \<exists>es'. annotate es goal = Inr es'"
  by (cases goal) (auto simp: annotate_def dest: annotate_goal_total)

text \<open>The error branch is real: a text in the calories column stops the loop.\<close>

lemma annotate_text_raises:
  "annotate [row (DateText ''2024-01-01'') Null (Text ''many'') Null] (Some 2000) = Inl TypeError"
  by (simp add: annotate_def row_def entry_status_def)

lemma annotate_keeps:
  assumes "annotate es goal = Inr es'" and "\<And>e s. P (e\<lparr>status := s\<rparr>) = P e" and "list_all P es"
  shows "list_all P es'"
proof -
  have len: "length es' = length es" using assms(1) by (rule annotate_length)
  have "\<And>i. i < length es' \<Longrightarrow> P (es' ! i)"
  proof -
    fix i assume "i < length es'"
    with len have i: "i < length es" by simp
    from annotate_nth [OF assms(1) i] obtain s where "es' ! i = (es ! i)\<lparr>status := Some s\<rparr>"
      by blast
    moreover from assms(3) i have "P (es ! i)" by (simp add: list_all_length)
    ultimately show "P (es' ! i)" by (simp add: assms(2))
  qed
  then show ?thesis by (simp add: list_all_length)
qed

section \<open>Facts about the chart loop\<close>

lemma chart_loop_numeric:
  "list_all (\<lambda>e. numeric (weight e)) es \<Longrightarrow>
   chart_loop fl es acc =
     Inr \<lparr>chart_labels = chart_labels acc @ map entry_label es,
          chart_weights = chart_weights acc
            @ map (\<lambda>e. case weight e of Num x \<Rightarrow> Some (float_num fl x) | _ \<Rightarrow> None) es,
          chart_calories = chart_calories acc @ map (\<lambda>e. or_zero (calories e)) es,
          chart_steps = chart_steps acc @ map (\<lambda>e. or_zero (steps e)) es\<rparr>"
proof (induction es arbitrary: acc)
  case Nil
  then show ?case by simp
next
  case (Cons e es)
  then show ?case
    by (cases "weight e") (simp_all add: weight_point_def)
qed

lemma build_chart_series_numeric:
  "list_all (\<lambda>e. numeric (weight e)) es \<Longrightarrow>
   build_chart_series fl es =
     Inr \<lparr>chart_labels = map entry_label (rev es),
          chart_weights =
            map (\<lambda>e. case weight e of Num x \<Rightarrow> Some (float_num fl x) | _ \<Rightarrow> None) (rev es),
          chart_calories = map (\<lambda>e. or_zero (calories e)) (rev es),
          chart_steps = map (\<lambda>e. or_zero (steps e)) (rev es)\<rparr>"
  by (simp add: build_chart_series_def chart_loop_numeric empty_chart_def)

section \<open>Facts about the flag loop\<close>

lemma flags_loop_numeric:
  "list_all (\<lambda>e. numeric (calories e)) es \<Longrightarrow>
   \<exists>m. flags_loop g es m0 = Inr m \<and>
     (\<forall>k. m k =
        (if k \<in> entry_label ` set es
         then Some ((case m0 k of None \<Rightarrow> False | Some b \<Rightarrow> b) \<or>
                    (\<exists>e\<in>set es. entry_label e = k \<and> (\<exists>c. calories e = Num c \<and> c > g)))
         else m0 k))"
proof (induction es arbitrary: m0)
  case Nil
  then show ?case by simp
next
  case (Cons e es)
  from Cons.prems have ne: "numeric (calories e)" and rest: "list_all (\<lambda>e. numeric (calories e)) es"
    by simp_all
  from ne have ov: "is_over g (calories e) = Inr (\<exists>c. calories e = Num c \<and> c > g)"
    by (cases "calories e") (simp_all add: is_over_def)
  let ?m1 = "m0(entry_label e \<mapsto>
      ((case m0 (entry_label e) of None \<Rightarrow> False | Some b \<Rightarrow> b) \<or>
       (\<exists>c. calories e = Num c \<and> c > g)))"
  from Cons.IH [OF rest, of ?m1] obtain m where
    m: "flags_loop g es ?m1 = Inr m" and
    mk: "\<And>k. m k =
        (if k \<in> entry_label ` set es
         then Some ((case ?m1 k of None \<Rightarrow> False | Some b \<Rightarrow> b) \<or>
                    (\<exists>e\<in>set es. entry_label e = k \<and> (\<exists>c. calories e = Num c \<and> c > g)))
         else ?m1 k)"
    by blast
  have "flags_loop g (e # es) m0 = Inr m"
    using ov m by simp
  moreover have "\<And>k. m k =
        (if k \<in> entry_label ` set (e # es)
         then Some ((case m0 k of None \<Rightarrow> False | Some b \<Rightarrow> b) \<or>
                    (\<exists>e\<in>set (e # es). entry_label e = k \<and> (\<exists>c. calories e = Num c \<and> c > g)))
         else m0 k)"
  proof -
    fix k
    show "m k =
        (if k \<in> entry_label ` set (e # es)
         then Some ((case m0 k of None \<Rightarrow> False | Some b \<Rightarrow> b) \<or>
                    (\<exists>e\<in>set (e # es). entry_label e = k \<and> (\<exists>c. calories e = Num c \<and> c > g)))
         else m0 k)"
    proof (cases "k = entry_label e")
      case True
      then show ?thesis by (subst mk) (auto simp: image_iff)
    next
      case False
      then show ?thesis by (subst mk) auto
    qed
  qed
  ultimately show ?case by blast
qed

lemma flags_total:
  "list_all (\<lambda>e. numeric (calories e)) es \<Longrightarrow> \<exists>fs. build_over_goal_flags es goal = Inr fs"
proof (cases goal)
  case None
  then show ?thesis by (simp add: build_over_goal_flags_def)
next
  case (Some g)
  assume "list_all (\<lambda>e. numeric (calories e)) es"
  from flags_loop_numeric [OF this, of g Map.empty] Some show ?thesis
    by (auto simp: build_over_goal_flags_def)
qed

section \<open>Facts about the date labels\<close>

lemma is_digit_digit_char: "is_digit (digit_char n)"
proof -
  have "n mod 10 < length ''0123456789''" by simp
  then have "''0123456789'' ! (n mod 10) \<in> set ''0123456789''" by (rule nth_mem)
  then show ?thesis by (simp only: is_digit_def digit_char_def)
qed

lemma digit_char_0: "digit_char 0 = CHR ''0''"
  by (simp add: digit_char_def)

lemma str_nat_small: "n < 10 \<Longrightarrow> str_nat n = [digit_char n]"
  by (simp add: str_nat.simps)

lemma str_nat_large: "10 \<le> n \<Longrightarrow> str_nat n = str_nat (n div 10) @ [digit_char n]"
  by (subst str_nat.simps) simp

lemma zfill2: "n < 100 \<Longrightarrow> zfill 2 (str_nat n) = [digit_char (n div 10), digit_char n]"
proof (cases "n < 10")
  case True
  then show ?thesis by (simp add: str_nat_small zfill_def digit_char_0)
next
  case False
  assume "n < 100"
  with False have "n div 10 < 10" "10 \<le> n" by simp_all
  then show ?thesis by (simp add: str_nat_large str_nat_small zfill_def)
qed

lemma str_nat_3: "n < 1000 \<Longrightarrow> 100 \<le> n \<Longrightarrow>
  str_nat n = [digit_char (n div 100), digit_char (n div 10), digit_char n]"
proof -
  assume a: "n < 1000" "100 \<le> n"
  then have "n div 10 < 100" "10 \<le> n div 10" "10 \<le> n" "n div 10 div 10 < 10" by simp_all
  then show ?thesis by (simp add: str_nat_large str_nat_small div_mult2_eq [symmetric])
qed

lemma str_nat_4: "n < 10000 \<Longrightarrow> 1000 \<le> n \<Longrightarrow>
  str_nat n =
    [digit_char (n div 1000), digit_char (n div 100), digit_char (n div 10), digit_char n]"
proof -
  assume "n < 10000" "1000 \<le> n"
  then have "n div 10 < 1000" "100 \<le> n div 10" "10 \<le> n" by simp_all
  then show ?thesis
    by (simp add: str_nat_large [of n] str_nat_3 div_mult2_eq [symmetric])
qed

text \<open>Below the year 1000 the label is shorter than ten characters.\<close>

lemma strftime_ymd_999: "strftime_ymd 999 1 1 = ''999-01-01''"
  by (simp add: strftime_ymd_def str_nat_3 zfill2 digit_char_def)

lemma strftime_ymd_digits:
  "1000 \<le> y \<Longrightarrow> y < 10000 \<Longrightarrow> m < 100 \<Longrightarrow> d < 100 \<Longrightarrow>
   strftime_ymd y m d =
     [digit_char (y div 1000), digit_char (y div 100), digit_char (y div 10), digit_char y,
      CHR ''-'', digit_char (m div 10), digit_char m,
      CHR ''-'', digit_char (d div 10), digit_char d]"
  by (simp add: strftime_ymd_def zfill2 str_nat_4)

lemma iso_ymd_strftime:
  "1000 \<le> y \<Longrightarrow> y < 10000 \<Longrightarrow> m < 100 \<Longrightarrow> d < 100 \<Longrightarrow>
   iso_ymd (strftime_ymd y m d)"
  by (simp add: strftime_ymd_digits iso_ymd_def is_digit_digit_char)

section \<open>Facts about the form handlers\<close>

text \<open>
  With the required field present the handlers do write: an entry is appended, the goal is
  replaced; and a connection that cannot be made leaves the store as it was.
\<close>

lemma add_entry_inserts:
  "add_entry local_config [''date'' \<mapsto> ''2024-01-02'', ''steps'' \<mapsto> ''''] example_store =
     \<lparr>out_store = example_store\<lparr>fitness_entries :=
        [(''2024-01-01'', Some ''70.5'', Some ''1800'', None), (''2024-01-02'', None, None, None)]\<rparr>,
      flashed = [(''Entry added.'', ''success'')], out_response = Redirect ''index''\<rparr>"
  by (simp add: add_entry_def local_config_def example_store_def get_db_connection_def
      driver_connect_def or_none_def truthy_str_def)

lemma set_goal_replaces:
  "set_goal local_config [''calorie_goal'' \<mapsto> ''1800''] example_store =
     \<lparr>out_store = example_store\<lparr>settings := [(''calorie_goal'', ''1800'')]\<rparr>,
      flashed = [(''Calorie goal updated.'', ''success'')], out_response = Redirect ''index''\<rparr>"
  by (simp add: set_goal_def local_config_def example_store_def get_db_connection_def
      driver_connect_def)

lemma add_entry_without_config:
  "add_entry (local_config\<lparr>USE_SQLITE := False, DB_HOST := Some ''db''\<rparr>)
     [''date'' \<mapsto> ''2024-01-02''] example_store =
     \<lparr>out_store = example_store,
      flashed = [(''Error adding entry: Missing DB config values: user, password, database. Check environment variables DB_HOST, DB_USER, DB_PASSWORD, DB_NAME.'', ''error'')],
      out_response = Redirect ''index''\<rparr>"
  by (simp add: add_entry_def local_config_def get_db_connection_def missing_config_def
      truthy_str_def)

section \<open>The claims\<close>

text \<open>
  C1. For a list of entries whose calories are each absent or a number, and any optional
  goal, the annotation loop returns a list of the same length in which an entry's status is
  \<open>N/A\<close> exactly when the goal is unset or the entry's calories are unset; with a goal
  \<open>g\<close> and calories \<open>c\<close> the status is \<open>Over Goal\<close> exactly when \<open>c > g\<close> and
  \<open>Within Goal\<close> exactly when not, so \<open>c = g\<close> gives \<open>Within Goal\<close>.
\<close>

theorem annotate_status:
  assumes "list_all (\<lambda>e. numeric (calories e)) es"
  shows "\<exists>es'. annotate es goal = Inr es' \<and> length es' = length es \<and>
     (\<forall>i<length es.
        (status (es' ! i) = Some ''N/A'' \<longleftrightarrow> goal = None \<or> calories (es ! i) = Null) \<and>
        (\<forall>g c. goal = Some g \<longrightarrow> calories (es ! i) = Num c \<longrightarrow>
           (status (es' ! i) = Some ''Over Goal'' \<longleftrightarrow> c > g) \<and>
           (status (es' ! i) = Some ''Within Goal'' \<longleftrightarrow> \<not> c > g)))"
proof -
  from assms obtain es' where r: "annotate es goal = Inr es'"
    using annotate_total by blast
  have len: "length es' = length es"
    using r by (rule annotate_length)
  have "\<And>i. i < length es \<Longrightarrow>
        (status (es' ! i) = Some ''N/A'' \<longleftrightarrow> goal = None \<or> calories (es ! i) = Null) \<and>
        (\<forall>g c. goal = Some g \<longrightarrow> calories (es ! i) = Num c \<longrightarrow>
           (status (es' ! i) = Some ''Over Goal'' \<longleftrightarrow> c > g) \<and>
           (status (es' ! i) = Some ''Within Goal'' \<longleftrightarrow> \<not> c > g))"
  proof -
    fix i assume i: "i < length es"
    from annotate_nth [OF r i] obtain s where
      s: "(case goal of None \<Rightarrow> Inr ''N/A'' | Some g \<Rightarrow> entry_status g (calories (es ! i))) = Inr s"
      and e: "es' ! i = (es ! i)\<lparr>status := Some s\<rparr>" by blast
    from assms i have n: "numeric (calories (es ! i))"
      by (simp add: list_all_length)
    show "(status (es' ! i) = Some ''N/A'' \<longleftrightarrow> goal = None \<or> calories (es ! i) = Null) \<and>
        (\<forall>g c. goal = Some g \<longrightarrow> calories (es ! i) = Num c \<longrightarrow>
           (status (es' ! i) = Some ''Over Goal'' \<longleftrightarrow> c > g) \<and>
           (status (es' ! i) = Some ''Within Goal'' \<longleftrightarrow> \<not> c > g))"
    proof (cases goal)
      case None
      with s e show ?thesis by auto
    next
      case (Some g)
      with s e n show ?thesis
        by (cases "calories (es ! i)") (auto simp: entry_status_def split: if_splits)
    qed
  qed
  with r len show ?thesis by blast
qed

theorem annotate_status_witness:
  "list_all (\<lambda>e. numeric (calories e)) spec_example \<and>
   (\<exists>es'. annotate spec_example (Some 2000) = Inr es' \<and>
      map status es' = [Some ''Over Goal'', Some ''Within Goal'', Some ''N/A''])"
proof -
  have h: "list_all (\<lambda>e. numeric (calories e)) spec_example"
    by (simp add: spec_example_def row_def)
  from annotate_status [OF h, of "Some 2000"] obtain es' where
    r: "annotate spec_example (Some 2000) = Inr es'" by blast
  then have "map status es' = [Some ''Over Goal'', Some ''Within Goal'', Some ''N/A'']"
    by (auto simp: spec_example_def row_def annotate_def entry_status_def)
  with h r show ?thesis by simp
qed

text \<open>
  C2. For a list of entries whose calories are each absent or a number, and a goal that is
  set, the flag loop returns a map whose keys are the labels of the entries and whose value
  at a label is the disjunction, over the entries with that label, of "calories are set and
  exceed the goal": one entry over the goal on a date makes that date's flag true. With no
  goal the result is the empty map, for every list of entries.
\<close>

theorem over_goal_flags_or:
  "(list_all (\<lambda>e. numeric (calories e)) es \<longrightarrow>
     (\<exists>m. build_over_goal_flags es (Some g) = Inr m \<and>
        (\<forall>k. m k =
           (if k \<in> entry_label ` set es
            then Some (\<exists>e\<in>set es. entry_label e = k \<and> (\<exists>c. calories e = Num c \<and> c > g))
            else None)))) \<and>
   build_over_goal_flags es None = Inr Map.empty"
proof -
  have "build_over_goal_flags es None = Inr Map.empty"
    by (simp add: build_over_goal_flags_def)
  moreover have "list_all (\<lambda>e. numeric (calories e)) es \<Longrightarrow>
     (\<exists>m. build_over_goal_flags es (Some g) = Inr m \<and>
        (\<forall>k. m k =
           (if k \<in> entry_label ` set es
            then Some (\<exists>e\<in>set es. entry_label e = k \<and> (\<exists>c. calories e = Num c \<and> c > g))
            else None)))"
  proof -
    assume "list_all (\<lambda>e. numeric (calories e)) es"
    from flags_loop_numeric [OF this, of g Map.empty] obtain m where
      "flags_loop g es Map.empty = Inr m" and
      "\<And>k. m k =
        (if k \<in> entry_label ` set es
         then Some ((case Map.empty k of None \<Rightarrow> False | Some b \<Rightarrow> b) \<or>
                    (\<exists>e\<in>set es. entry_label e = k \<and> (\<exists>c. calories e = Num c \<and> c > g)))
         else Map.empty k)"
      by blast
    then show ?thesis
      by (intro exI [of _ m]) (simp add: build_over_goal_flags_def)
  qed
  ultimately show ?thesis by blast
qed

theorem over_goal_flags_or_witness:
  "list_all (\<lambda>e. numeric (calories e)) duplicate_example \<and>
   (\<exists>m. build_over_goal_flags duplicate_example (Some 2000) = Inr m \<and>
      m ''2024-02-01'' = Some True \<and> m ''2024-02-02'' = None) \<and>
   build_over_goal_flags duplicate_example None = Inr Map.empty"
proof -
  have h: "list_all (\<lambda>e. numeric (calories e)) duplicate_example"
    by (simp add: duplicate_example_def row_def)
  from over_goal_flags_or [of duplicate_example 2000] h obtain m where
    r: "build_over_goal_flags duplicate_example (Some 2000) = Inr m" and
    k: "\<And>k. m k =
           (if k \<in> entry_label ` set duplicate_example
            then Some (\<exists>e\<in>set duplicate_example. entry_label e = k \<and> (\<exists>c. calories e = Num c \<and> c > 2000))
            else None)"
    and n: "build_over_goal_flags duplicate_example None = Inr Map.empty"
    by blast
  have "m ''2024-02-01'' = Some True"
    by (simp add: k duplicate_example_def row_def entry_label_def strftime_ymd_digits digit_char_def)
  moreover have "m ''2024-02-02'' = None"
    by (simp add: k duplicate_example_def row_def entry_label_def strftime_ymd_digits digit_char_def)
  ultimately show ?thesis using h r n by blast
qed

text \<open>
  C3. For a list of entries whose weights are each absent or a number, the chart loop
  returns four sequences of the length of the list, and the element at index \<open>i\<close> of
  each comes from the entry at index \<open>length es - 1 - i\<close> of the newest-first input: the
  output is the input reversed, and \<open>labels[0]\<close> is the label of the last, oldest, entry.
\<close>

theorem chart_series_reversed:
  assumes "list_all (\<lambda>e. numeric (weight e)) es"
  shows "\<exists>c. build_chart_series fl es = Inr c \<and>
     length (chart_labels c) = length es \<and> length (chart_weights c) = length es \<and>
     length (chart_calories c) = length es \<and> length (chart_steps c) = length es \<and>
     (\<forall>i<length es.
        chart_labels c ! i = entry_label (es ! (length es - 1 - i)) \<and>
        weight_point fl (weight (es ! (length es - 1 - i))) = Inr (chart_weights c ! i) \<and>
        chart_calories c ! i = or_zero (calories (es ! (length es - 1 - i))) \<and>
        chart_steps c ! i = or_zero (steps (es ! (length es - 1 - i)))) \<and>
     (es \<noteq> [] \<longrightarrow> chart_labels c ! 0 = entry_label (last es))"
proof -
  let ?c = "\<lparr>chart_labels = map entry_label (rev es),
          chart_weights =
            map (\<lambda>e. case weight e of Num x \<Rightarrow> Some (float_num fl x) | _ \<Rightarrow> None) (rev es),
          chart_calories = map (\<lambda>e. or_zero (calories e)) (rev es),
          chart_steps = map (\<lambda>e. or_zero (steps e)) (rev es)\<rparr>"
  have r: "build_chart_series fl es = Inr ?c"
    using assms by (rule build_chart_series_numeric)
  have nth: "\<And>i. i < length es \<Longrightarrow>
        chart_labels ?c ! i = entry_label (es ! (length es - 1 - i)) \<and>
        weight_point fl (weight (es ! (length es - 1 - i))) = Inr (chart_weights ?c ! i) \<and>
        chart_calories ?c ! i = or_zero (calories (es ! (length es - 1 - i))) \<and>
        chart_steps ?c ! i = or_zero (steps (es ! (length es - 1 - i)))"
  proof -
    fix i assume i: "i < length es"
    then have j: "length es - 1 - i < length es" by simp
    from assms j have "numeric (weight (es ! (length es - 1 - i)))"
      by (simp add: list_all_length)
    then have "weight_point fl (weight (es ! (length es - 1 - i))) =
        Inr (case weight (es ! (length es - 1 - i)) of Num x \<Rightarrow> Some (float_num fl x) | _ \<Rightarrow> None)"
      by (cases "weight (es ! (length es - 1 - i))") (simp_all add: weight_point_def)
    with i show "chart_labels ?c ! i = entry_label (es ! (length es - 1 - i)) \<and>
        weight_point fl (weight (es ! (length es - 1 - i))) = Inr (chart_weights ?c ! i) \<and>
        chart_calories ?c ! i = or_zero (calories (es ! (length es - 1 - i))) \<and>
        chart_steps ?c ! i = or_zero (steps (es ! (length es - 1 - i)))"
      by (simp add: rev_nth)
  qed
  have first: "es \<noteq> [] \<longrightarrow> chart_labels ?c ! 0 = entry_label (last es)"
    by (simp add: hd_rev hd_map nth_map hd_conv_nth [symmetric])
  show ?thesis
    using r nth first by (intro exI [of _ ?c]) simp
qed

theorem chart_series_reversed_witness:
  "list_all (\<lambda>e. numeric (weight e)) spec_example \<and>
   (\<exists>c. build_chart_series example_float spec_example = Inr c \<and>
      chart_labels c = [''2024-01-01'', ''2024-01-02'', ''2024-01-03''] \<and>
      chart_weights c = [None, None, None] \<and>
      chart_calories c = [Num 0, Num 1800, Num 2200] \<and>
      chart_steps c = [Num 0, Num 0, Num 0])"
proof -
  have h: "list_all (\<lambda>e. numeric (weight e)) spec_example"
    by (simp add: spec_example_def row_def)
  from chart_series_reversed [OF h, of example_float] obtain c where
    r: "build_chart_series example_float spec_example = Inr c" by blast
  then have "c = \<lparr>chart_labels = [''2024-01-01'', ''2024-01-02'', ''2024-01-03''],
      chart_weights = [None, None, None], chart_calories = [Num 0, Num 1800, Num 2200],
      chart_steps = [Num 0, Num 0, Num 0]\<rparr>"
    by (simp add: build_chart_series_def spec_example_def row_def empty_chart_def
        weight_point_def or_zero_def entry_label_def strftime_ymd_digits digit_char_def)
  with h r show ?thesis by simp
qed

text \<open>
  C4, as amended. The chart loop and the flag loop both label an entry by \<open>entry_label\<close>.
  For an entry whose date is a \<^verbatim>\<open>date\<close> or \<^verbatim>\<open>datetime\<close> object with a year from 1000 to
  9999 (month at most 12, day at most 31) the label is the string \<^verbatim>\<open>YYYY-MM-DD\<close> with
  month and day padded by zeros, digit by digit. For an entry whose date is a text, as the
  local store returns it, the label is that text unchanged, whatever its form.
\<close>

theorem label_of_entry:
  "(\<forall>y m d. (entry_date e = DateObj y m d \<or> (\<exists>hh mm ss. entry_date e = DatetimeObj y m d hh mm ss)) \<longrightarrow>
      1000 \<le> y \<longrightarrow> y \<le> 9999 \<longrightarrow> m \<le> 12 \<longrightarrow> d \<le> 31 \<longrightarrow>
      entry_label e =
        [digit_char (y div 1000), digit_char (y div 100), digit_char (y div 10), digit_char y,
         CHR ''-'', digit_char (m div 10), digit_char m,
         CHR ''-'', digit_char (d div 10), digit_char d] \<and>
      iso_ymd (entry_label e)) \<and>
   (\<forall>s. entry_date e = DateText s \<longrightarrow> entry_label e = s) \<and>
   (list_all (\<lambda>e. numeric (weight e)) es \<longrightarrow>
      (\<exists>c. build_chart_series fl es = Inr c \<and> chart_labels c = map entry_label (rev es))) \<and>
   (list_all (\<lambda>e. numeric (calories e)) es \<longrightarrow>
      (\<exists>fs. build_over_goal_flags es (Some g) = Inr fs \<and> dom fs = entry_label ` set es))"
proof -
  have date: "\<And>y m d. (entry_date e = DateObj y m d \<or> (\<exists>hh mm ss. entry_date e = DatetimeObj y m d hh mm ss)) \<Longrightarrow>
      1000 \<le> y \<Longrightarrow> y \<le> 9999 \<Longrightarrow> m \<le> 12 \<Longrightarrow> d \<le> 31 \<Longrightarrow>
      entry_label e =
        [digit_char (y div 1000), digit_char (y div 100), digit_char (y div 10), digit_char y,
         CHR ''-'', digit_char (m div 10), digit_char m,
         CHR ''-'', digit_char (d div 10), digit_char d] \<and>
      iso_ymd (entry_label e)"
  proof -
    fix y m d :: nat
    assume e: "entry_date e = DateObj y m d \<or> (\<exists>hh mm ss. entry_date e = DatetimeObj y m d hh mm ss)"
      and "1000 \<le> y" "y \<le> 9999" "m \<le> 12" "d \<le> 31"
    then have b: "1000 \<le> y" "y < 10000" "m < 100" "d < 100" by simp_all
    from e have "entry_label e = strftime_ymd y m d"
      by (auto simp: entry_label_def)
    with b show "entry_label e =
        [digit_char (y div 1000), digit_char (y div 100), digit_char (y div 10), digit_char y,
         CHR ''-'', digit_char (m div 10), digit_char m,
         CHR ''-'', digit_char (d div 10), digit_char d] \<and>
      iso_ymd (entry_label e)"
      using strftime_ymd_digits [OF b] iso_ymd_strftime [OF b] by simp
  qed
  have str: "\<And>s. entry_date e = DateText s \<Longrightarrow> entry_label e = s"
    by (simp add: entry_label_def)
  have chart: "list_all (\<lambda>e. numeric (weight e)) es \<Longrightarrow>
      (\<exists>c. build_chart_series fl es = Inr c \<and> chart_labels c = map entry_label (rev es))"
    by (simp add: build_chart_series_numeric)
  have flags: "list_all (\<lambda>e. numeric (calories e)) es \<Longrightarrow>
      (\<exists>fs. build_over_goal_flags es (Some g) = Inr fs \<and> dom fs = entry_label ` set es)"
  proof -
    assume "list_all (\<lambda>e. numeric (calories e)) es"
    from flags_loop_numeric [OF this, of g Map.empty] obtain fs where
      r: "flags_loop g es Map.empty = Inr fs" and
      k: "\<And>k. fs k =
        (if k \<in> entry_label ` set es
         then Some ((case Map.empty k of None \<Rightarrow> False | Some b \<Rightarrow> b) \<or>
                    (\<exists>e\<in>set es. entry_label e = k \<and> (\<exists>c. calories e = Num c \<and> c > g)))
         else Map.empty k)"
      by blast
    have "dom fs = entry_label ` set es"
      by (auto simp: dom_def k split: if_splits)
    with r show ?thesis by (simp add: build_over_goal_flags_def)
  qed
  from date str chart flags show ?thesis by blast
qed

theorem label_of_entry_witness:
  "entry_date (spec_example ! 0) = DateObj 2024 1 3 \<and>
   entry_label (spec_example ! 0) = ''2024-01-03'' \<and>
   iso_ymd (entry_label (spec_example ! 0)) \<and>
   entry_date (text_date_example ! 0) = DateText ''3/1/2024'' \<and>
   entry_label (text_date_example ! 0) = ''3/1/2024'' \<and>
   list_all (\<lambda>e. numeric (weight e)) spec_example \<and>
   list_all (\<lambda>e. numeric (calories e)) spec_example \<and>
   (\<exists>c. build_chart_series example_float spec_example = Inr c \<and>
      chart_labels c = map entry_label (rev spec_example)) \<and>
   (\<exists>fs. build_over_goal_flags spec_example (Some 2000) = Inr fs \<and>
      dom fs = entry_label ` set spec_example)"
proof -
  have d: "entry_date (spec_example ! 0) = DateObj 2024 1 3"
    by (simp add: spec_example_def row_def)
  have t: "entry_date (text_date_example ! 0) = DateText ''3/1/2024''"
    by (simp add: text_date_example_def row_def)
  have w: "list_all (\<lambda>e. numeric (weight e)) spec_example"
    and c: "list_all (\<lambda>e. numeric (calories e)) spec_example"
    by (simp_all add: spec_example_def row_def)
  note a = label_of_entry [of "spec_example ! 0" spec_example example_float 2000]
  note b = label_of_entry [of "text_date_example ! 0" spec_example example_float 2000]
  have d': "entry_date (spec_example ! 0) = DateObj 2024 1 3 \<or>
      (\<exists>hh mm ss. entry_date (spec_example ! 0) = DatetimeObj 2024 1 3 hh mm ss)"
    using d by (rule disjI1)
  have both: "entry_label (spec_example ! 0) =
        [digit_char (2024 div 1000), digit_char (2024 div 100), digit_char (2024 div 10),
         digit_char 2024, CHR ''-'', digit_char (1 div 10), digit_char 1,
         CHR ''-'', digit_char (3 div 10), digit_char 3] \<and>
      iso_ymd (entry_label (spec_example ! 0))"
    by (rule a [THEN conjunct1, rule_format, of 2024 1 3, OF d']) simp_all
  from both have l: "entry_label (spec_example ! 0) = ''2024-01-03''"
    by (simp add: digit_char_def)
  from both have i: "iso_ymd (entry_label (spec_example ! 0))"
    by (rule conjunct2)
  have s: "entry_label (text_date_example ! 0) = ''3/1/2024''"
    by (rule b [THEN conjunct2, THEN conjunct1, rule_format, OF t])
  have ch: "\<exists>c. build_chart_series example_float spec_example = Inr c \<and>
      chart_labels c = map entry_label (rev spec_example)"
    by (rule a [THEN conjunct2, THEN conjunct2, THEN conjunct1, rule_format, OF w])
  have fl: "\<exists>fs. build_over_goal_flags spec_example (Some 2000) = Inr fs \<and>
      dom fs = entry_label ` set spec_example"
    by (rule a [THEN conjunct2, THEN conjunct2, THEN conjunct2, rule_format, OF c])
  from d l i t s w c ch fl show ?thesis by (intro conjI)
qed

theorem label_of_entry_counterexample:
  "build_chart_series example_float text_date_example =
     Inr \<lparr>chart_labels = [''3/1/2024''], chart_weights = [None],
          chart_calories = [Num 1800], chart_steps = [Num 0]\<rparr> \<and>
   \<not> iso_ymd ''3/1/2024''"
  by (simp add: build_chart_series_def text_date_example_def row_def empty_chart_def
      weight_point_def or_zero_def entry_label_def iso_ymd_def)

text \<open>
  C5. For a list of entries with fields absent or numbers, the chart loop emits for the
  weight the converted value when it is present and \<open>None\<close> (no number at all, so not
  zero) when it is absent, and for calories and for steps the stored number when it is
  present and the number 0 when it is absent.
\<close>

theorem chart_missing_values:
  assumes "list_all valid_entry es"
  shows "\<exists>c. build_chart_series fl es = Inr c \<and>
     (\<forall>i<length es.
        (weight (rev es ! i) = Null \<longrightarrow> chart_weights c ! i = None) \<and>
        (\<forall>w. weight (rev es ! i) = Num w \<longrightarrow> chart_weights c ! i = Some (float_num fl w)) \<and>
        (calories (rev es ! i) = Null \<longrightarrow> chart_calories c ! i = Num 0) \<and>
        (\<forall>n. calories (rev es ! i) = Num n \<longrightarrow> chart_calories c ! i = Num n) \<and>
        (steps (rev es ! i) = Null \<longrightarrow> chart_steps c ! i = Num 0) \<and>
        (\<forall>n. steps (rev es ! i) = Num n \<longrightarrow> chart_steps c ! i = Num n))"
proof -
  let ?c = "\<lparr>chart_labels = map entry_label (rev es),
          chart_weights =
            map (\<lambda>e. case weight e of Num x \<Rightarrow> Some (float_num fl x) | _ \<Rightarrow> None) (rev es),
          chart_calories = map (\<lambda>e. or_zero (calories e)) (rev es),
          chart_steps = map (\<lambda>e. or_zero (steps e)) (rev es)\<rparr>"
  from assms have "list_all (\<lambda>e. numeric (weight e)) es"
    by (simp add: list_all_iff valid_entry_def)
  then have r: "build_chart_series fl es = Inr ?c"
    by (rule build_chart_series_numeric)
  have "\<And>i. i < length es \<Longrightarrow>
        (weight (rev es ! i) = Null \<longrightarrow> chart_weights ?c ! i = None) \<and>
        (\<forall>w. weight (rev es ! i) = Num w \<longrightarrow> chart_weights ?c ! i = Some (float_num fl w)) \<and>
        (calories (rev es ! i) = Null \<longrightarrow> chart_calories ?c ! i = Num 0) \<and>
        (\<forall>n. calories (rev es ! i) = Num n \<longrightarrow> chart_calories ?c ! i = Num n) \<and>
        (steps (rev es ! i) = Null \<longrightarrow> chart_steps ?c ! i = Num 0) \<and>
        (\<forall>n. steps (rev es ! i) = Num n \<longrightarrow> chart_steps ?c ! i = Num n)"
    by (simp add: or_zero_def)
  with r show ?thesis by (intro exI [of _ ?c]) simp
qed

theorem chart_missing_values_witness:
  "list_all valid_entry duplicate_example \<and>
   (\<exists>c. build_chart_series example_float duplicate_example = Inr c \<and>
      chart_weights c = [None, Some 70.5] \<and>
      chart_calories c = [Num 1000, Num 2500] \<and>
      chart_steps c = [Num 0, Num 8000])"
proof -
  have h: "list_all valid_entry duplicate_example"
    by (simp add: duplicate_example_def row_def valid_entry_def)
  from chart_missing_values [OF h, of example_float] obtain c where
    r: "build_chart_series example_float duplicate_example = Inr c" by blast
  then have "c = \<lparr>chart_labels = [''2024-02-01'', ''2024-02-01''],
      chart_weights = [None, Some 70.5], chart_calories = [Num 1000, Num 2500],
      chart_steps = [Num 0, Num 8000]\<rparr>"
    by (simp add: build_chart_series_def duplicate_example_def row_def empty_chart_def
        weight_point_def or_zero_def entry_label_def strftime_ymd_digits digit_char_def example_float_def)
  with h r show ?thesis by simp
qed

text \<open>
  C6. For a list of entries whose calories are each absent or a number, and any optional
  goal, the annotation loop returns a list of the same length and order in which every
  entry has the date, weight, calories and steps of the input entry at the same index, and
  differs from it in the status only, which is one of the three labels.
\<close>

theorem annotate_frame:
  assumes "list_all (\<lambda>e. numeric (calories e)) es"
  shows "\<exists>es'. annotate es goal = Inr es' \<and> length es' = length es \<and>
     (\<forall>i<length es.
        entry_date (es' ! i) = entry_date (es ! i) \<and> weight (es' ! i) = weight (es ! i) \<and>
        calories (es' ! i) = calories (es ! i) \<and> steps (es' ! i) = steps (es ! i) \<and>
        es' ! i = (es ! i)\<lparr>status := status (es' ! i)\<rparr> \<and>
        status (es' ! i) \<in> {Some ''Within Goal'', Some ''Over Goal'', Some ''N/A''})"
proof -
  from assms obtain es' where r: "annotate es goal = Inr es'"
    using annotate_total by blast
  have len: "length es' = length es"
    using r by (rule annotate_length)
  have "\<And>i. i < length es \<Longrightarrow>
        entry_date (es' ! i) = entry_date (es ! i) \<and> weight (es' ! i) = weight (es ! i) \<and>
        calories (es' ! i) = calories (es ! i) \<and> steps (es' ! i) = steps (es ! i) \<and>
        es' ! i = (es ! i)\<lparr>status := status (es' ! i)\<rparr> \<and>
        status (es' ! i) \<in> {Some ''Within Goal'', Some ''Over Goal'', Some ''N/A''}"
  proof -
    fix i assume i: "i < length es"
    from annotate_nth [OF r i] obtain s where
      s: "(case goal of None \<Rightarrow> Inr ''N/A'' | Some g \<Rightarrow> entry_status g (calories (es ! i))) = Inr s"
      and e: "es' ! i = (es ! i)\<lparr>status := Some s\<rparr>" by blast
    from s have "s \<in> {''Within Goal'', ''Over Goal'', ''N/A''}"
      by (cases goal) (auto simp: entry_status_def split: if_splits sum.splits)
    with e show "entry_date (es' ! i) = entry_date (es ! i) \<and> weight (es' ! i) = weight (es ! i) \<and>
        calories (es' ! i) = calories (es ! i) \<and> steps (es' ! i) = steps (es ! i) \<and>
        es' ! i = (es ! i)\<lparr>status := status (es' ! i)\<rparr> \<and>
        status (es' ! i) \<in> {Some ''Within Goal'', Some ''Over Goal'', Some ''N/A''}"
      by auto
  qed
  with r len show ?thesis by blast
qed

theorem annotate_frame_witness:
  "list_all (\<lambda>e. numeric (calories e)) spec_example \<and>
   (\<exists>es'. annotate spec_example (Some 2000) = Inr es' \<and>
      map entry_date es' = [DateObj 2024 1 3, DateObj 2024 1 2, DateObj 2024 1 1] \<and>
      map weight es' = [Null, Null, Null] \<and>
      map calories es' = [Num 2200, Num 1800, Null] \<and>
      map steps es' = [Null, Null, Null])"
proof -
  have h: "list_all (\<lambda>e. numeric (calories e)) spec_example"
    by (simp add: spec_example_def row_def)
  from annotate_frame [OF h, of "Some 2000"] obtain es' where
    r: "annotate spec_example (Some 2000) = Inr es'" by blast
  then have "map entry_date es' = [DateObj 2024 1 3, DateObj 2024 1 2, DateObj 2024 1 1] \<and>
      map weight es' = [Null, Null, Null] \<and>
      map calories es' = [Num 2200, Num 1800, Null] \<and>
      map steps es' = [Null, Null, Null]"
    by (auto simp: spec_example_def row_def annotate_def entry_status_def)
  with h r show ?thesis by simp
qed

text \<open>
  C7. On a list, of any length and so of at most 30 entries, whose weight, calories and
  steps are each absent or a number, and with any optional integer goal, each of the three
  loops returns a result, and so does the body of \<^verbatim>\<open>index\<close> that runs them in turn: no
  \<^verbatim>\<open>TypeError\<close> and no \<^verbatim>\<open>ValueError\<close> is reached.
\<close>

theorem core_total:
  assumes "list_all valid_entry es"
  shows "(\<exists>es'. annotate es goal = Inr es') \<and>
         (\<exists>c. build_chart_series fl es = Inr c) \<and>
         (\<exists>fs. build_over_goal_flags es goal = Inr fs) \<and>
         (\<exists>vm. index_core fl es goal = Inr vm)"
proof -
  from assms have w: "list_all (\<lambda>e. numeric (weight e)) es"
    and c: "list_all (\<lambda>e. numeric (calories e)) es"
    by (simp_all add: list_all_iff valid_entry_def)
  from c obtain es' where a: "annotate es goal = Inr es'"
    using annotate_total by blast
  have w': "list_all (\<lambda>e. numeric (weight e)) es'"
    using a _ w by (rule annotate_keeps) simp
  have c': "list_all (\<lambda>e. numeric (calories e)) es'"
    using a _ c by (rule annotate_keeps) simp
  from w have ch: "\<exists>c. build_chart_series fl es = Inr c"
    by (simp add: build_chart_series_numeric)
  from c have fs: "\<exists>fs. build_over_goal_flags es goal = Inr fs"
    by (rule flags_total)
  from w' obtain ch' where ch': "build_chart_series fl es' = Inr ch'"
    by (simp add: build_chart_series_numeric)
  from c' obtain fs' where fs': "build_over_goal_flags es' goal = Inr fs'"
    using flags_total by blast
  have "\<exists>vm. index_core fl es goal = Inr vm"
    by (simp add: index_core_def a ch' fs')
  with a ch fs show ?thesis by blast
qed

theorem core_total_witness:
  "list_all valid_entry spec_example \<and>
   (\<exists>es'. annotate spec_example (Some 2000) = Inr es') \<and>
   (\<exists>c. build_chart_series example_float spec_example = Inr c) \<and>
   (\<exists>fs. build_over_goal_flags spec_example (Some 2000) = Inr fs) \<and>
   (\<exists>vm. index_core example_float spec_example (Some 2000) = Inr vm)"
proof -
  have h: "list_all valid_entry spec_example"
    by (simp add: spec_example_def row_def valid_entry_def)
  from core_total [OF h, of "Some 2000" example_float] h show ?thesis
    by simp
qed

text \<open>
  C8. Annotating the result of the annotation loop again, with the same goal, gives what
  annotating once gives; where the first run raises, so does the sequence.
\<close>

theorem annotate_idempotent:
  "(case annotate es goal of Inl err \<Rightarrow> Inl err | Inr es' \<Rightarrow> annotate es' goal) = annotate es goal"
proof (cases goal)
  case None
  then show ?thesis by (simp add: annotate_def)
next
  case (Some g)
  then show ?thesis
    by (auto simp: annotate_def split: sum.splits dest: annotate_goal_idem)
qed

text \<open>
  C9. When the form of \<^verbatim>\<open>POST /add\<close> has no \<^verbatim>\<open>date\<close>, or an empty one, the handler
  flashes "Date is required." and redirects to the index with the store as it was; when the
  form of \<^verbatim>\<open>POST /set_goal\<close> has no \<^verbatim>\<open>calorie_goal\<close>, or an empty one, the handler flashes
  "Calorie goal cannot be empty." and redirects with the store as it was.
\<close>

theorem validation_error_keeps_store:
  "(form ''date'' = None \<or> form ''date'' = Some [] \<longrightarrow>
      add_entry cfg form st =
        \<lparr>out_store = st, flashed = [(''Date is required.'', ''error'')],
         out_response = Redirect ''index''\<rparr>) \<and>
   (form ''calorie_goal'' = None \<or> form ''calorie_goal'' = Some [] \<longrightarrow>
      set_goal cfg form st =
        \<lparr>out_store = st, flashed = [(''Calorie goal cannot be empty.'', ''error'')],
         out_response = Redirect ''index''\<rparr>)"
  by (auto simp: add_entry_def set_goal_def Let_def)

theorem validation_error_keeps_store_witness:
  "(Map.empty :: string \<rightharpoonup> string) ''date'' = None \<and>
   add_entry local_config Map.empty example_store =
     \<lparr>out_store = example_store, flashed = [(''Date is required.'', ''error'')],
      out_response = Redirect ''index''\<rparr> \<and>
   [''calorie_goal'' \<mapsto> ''''] ''calorie_goal'' = Some [] \<and>
   set_goal local_config [''calorie_goal'' \<mapsto> ''''] example_store =
     \<lparr>out_store = example_store, flashed = [(''Calorie goal cannot be empty.'', ''error'')],
      out_response = Redirect ''index''\<rparr>"
  using validation_error_keeps_store [of Map.empty local_config example_store]
    validation_error_keeps_store [of "[''calorie_goal'' \<mapsto> '''']" local_config example_store]
  by simp

text \<open>
  C10. An entry whose calories are present with the value 0 is compared with a goal that
  is set: its status is \<open>Over Goal\<close> when the goal is negative and \<open>Within Goal\<close>
  otherwise, never \<open>N/A\<close>. The test for \<open>N/A\<close> is \<^verbatim>\<open>calories is None\<close>, not truthiness.
\<close>

theorem zero_calories_compared:
  assumes "list_all (\<lambda>e. numeric (calories e)) es" and "i < length es"
    and "calories (es ! i) = Num 0"
  shows "\<exists>es'. annotate es (Some g) = Inr es' \<and>
     status (es' ! i) = Some (if 0 > g then ''Over Goal'' else ''Within Goal'') \<and>
     status (es' ! i) \<noteq> Some ''N/A'' \<and>
     (0 \<le> g \<longrightarrow> status (es' ! i) = Some ''Within Goal'')"
proof -
  from assms(1) obtain es' where r: "annotate es (Some g) = Inr es'"
    using annotate_total by blast
  from annotate_nth [OF r assms(2)] assms(3)
  have "status (es' ! i) = Some (if 0 > g then ''Over Goal'' else ''Within Goal'')"
    by (auto simp: entry_status_def)
  with r show ?thesis by auto
qed

theorem zero_calories_compared_witness:
  "list_all (\<lambda>e. numeric (calories e)) zero_example \<and> (0::nat) < length zero_example \<and>
   calories (zero_example ! 0) = Num 0 \<and>
   (\<exists>es'. annotate zero_example (Some 2000) = Inr es' \<and>
      status (es' ! 0) = Some ''Within Goal'')"
proof -
  have h: "list_all (\<lambda>e. numeric (calories e)) zero_example"
    and i: "0 < length zero_example"
    and z: "calories (zero_example ! 0) = Num 0"
    by (simp_all add: zero_example_def row_def)
  from zero_calories_compared [OF h i z, of 2000] h i z show ?thesis
    by auto
qed

end
